theory Spec2Isabelle
  imports Main "HOL-Library.AList" "HOL-Library.Sublist"
begin

section \<open>Data model\<close>

text \<open>
  The repository lives in four directories under \<open>repoPath\<close>: \<open>refs/\<close> holds one
  JSON file per ref (\<open>refs/<name>.json\<close>), \<open>mounts/\<close> one JSON file per mount
  session (\<open>mounts/<base name of the mount point>.json\<close>), \<open>layers/\<close> and
  \<open>work/\<close> one directory per layer identifier. The program reaches all of them by
  path, and a ref name or a parent that the caller gives is put into the path as it
  is, so the model keeps the file system by path: the files, each with what it
  decodes to, and the directories.
\<close>

type_synonym errno = nat

record Ref =
  Name :: string
  Parent :: string
  LayerID :: string
  CreatedAt :: int
  Metadata :: "(string \<times> string) list"

record MountInfo =
  mi_ref :: string
  mi_mountPoint :: string

text \<open>
  A file is read in two ways: \<open>getRef\<close> and \<open>ListRefs\<close> decode it into a \<open>Ref\<close>,
  \<open>IsMountedRef\<close> into a \<open>map[string]string\<close> of which it reads the keys \<open>ref\<close> and
  \<open>mountPoint\<close>. A file is what the two decoders make of it (\<open>None\<close>: the decoder
  fails).
\<close>

record content =
  asRef :: "Ref option"
  asSession :: "MountInfo option"

record world =
  files :: "(string \<times> content) list"
  dirs :: "string set"

text \<open>
  The errors of the program are \<open>fmt.Errorf\<close> strings; each constructor stands for one
  of them:
  \<^item> \<open>InvalidName\<close>: "ref name cannot be empty", "ref name contains invalid characters";
  \<^item> \<open>ParentNotFound\<close>: "parent ref not found: ...";
  \<^item> \<open>RefNotFound\<close>: "ref not found: ...";
  \<^item> \<open>AlreadyMounted\<close>: "mount point already in use";
  \<^item> \<open>NotMounted\<close>: "mount point not mounted";
  \<^item> \<open>HasChildrenErr\<close>: "cannot delete ref '...': it has child refs";
  \<^item> \<open>RefMounted\<close>: "cannot delete ref '...': it is currently mounted";
  \<^item> \<open>UnmountFailed e\<close>: "failed to unmount after retries: %w" wrapping \<open>lastErr\<close>
    (\<open>None\<close> is Go's nil);
  \<^item> \<open>MountFailed n\<close>: the error of the bind mount, returned as it is;
  \<^item> \<open>IOError n\<close>: a failed directory creation, file write, directory listing or removal.
\<close>

datatype error =
    InvalidName
  | ParentNotFound
  | RefNotFound
  | AlreadyMounted
  | NotMounted
  | HasChildrenErr
  | RefMounted
  | UnmountFailed "errno option"
  | MountFailed errno
  | IOError errno

text \<open>
  \<open>os.WriteFile\<close> opens the file with \<open>O_TRUNC\<close> and then writes: it succeeds, or fails
  before the file is touched, or fails after the truncation, which leaves an empty
  file.
\<close>

datatype write_result = WriteOk | WriteOpenErr errno | WriteTruncErr errno

text \<open>What the program does to the operating system, in the order it does it.\<close>

datatype event =
    EvSync
  | EvSleep nat
  | EvExec "string list"
  | EvMount string string string nat string
  | EvUnmount string nat

text \<open>
  Everything the program reads from outside a call is a field of the environment:
  the standard library's path functions (\<open>filepath.Join\<close>, \<open>filepath.Base\<close>,
  \<open>filepath.Abs\<close>), the file a path names (\<open>resolve\<close>: the operating system's
  resolution of a path string, the same for all the paths of one file; the files and
  directories of the world are kept under it), the clock (\<open>now k\<close> is the k-th
  reading of \<open>time.Now().UnixNano()\<close> in the call), the outcome of each file-system
  call (\<open>None\<close> is success), the text of \<open>/proc/mounts\<close> (\<open>None\<close> when it cannot be
  read), the outcome of the mount system call for given arguments, of the i-th plain
  unmount, of the detaching unmount, and the process identifiers \<open>lsof\<close> prints in
  loop round i (\<open>None\<close> when it fails or prints nothing).
\<close>

record env =
  repoPath :: string
  pjoin :: "string list \<Rightarrow> string"
  pbase :: "string \<Rightarrow> string"
  pabs :: "string \<Rightarrow> string option"
  resolve :: "string \<Rightarrow> string"
  now :: "nat \<Rightarrow> int"
  mkdirAll :: "string \<Rightarrow> errno option"
  writeFile :: "string \<Rightarrow> write_result"
  readDir :: "string \<Rightarrow> errno option"
  removeFile :: "string \<Rightarrow> errno option"
  removeAll :: "string \<Rightarrow> errno option"
  procMounts :: "string option"
  sysMount :: "string \<Rightarrow> string \<Rightarrow> string \<Rightarrow> nat \<Rightarrow> string \<Rightarrow> errno option"
  sysUnmount :: "nat \<Rightarrow> errno option"
  sysDetach :: "errno option"
  lsofOut :: "nat \<Rightarrow> string list option"

definition ENOENT :: errno where
  "ENOENT = 2"

definition MS_BIND :: nat where
  "MS_BIND = 4096"

definition MNT_DETACH :: nat where
  "MNT_DETACH = 2"

section \<open>Files\<close>

text \<open>
  What the program writes. A ref file decodes into its ref; read as a
  \<open>map[string]string\<close> it decodes only when the metadata object is left out (an
  empty map, \<open>omitempty\<close>), and then has no key \<open>ref\<close>. A session file decodes into
  its two keys; read as a \<open>Ref\<close> it has none of the fields, which gives the zero
  \<open>Ref\<close> (the zero time is 1 January of the year 1). An empty file decodes into
  nothing.
\<close>

definition zeroRef :: Ref where
  "zeroRef = \<lparr>Name = [], Parent = [], LayerID = [], CreatedAt = - 62135596800000000000,
              Metadata = []\<rparr>"

definition refContent :: "Ref \<Rightarrow> content" where
  "refContent ref =
     \<lparr>asRef = Some ref,
      asSession = (if Metadata ref = [] then Some \<lparr>mi_ref = [], mi_mountPoint = []\<rparr>
                   else None)\<rparr>"

definition sessionContent :: "string \<Rightarrow> string \<Rightarrow> content" where
  "sessionContent refName mountPoint =
     \<lparr>asRef = Some zeroRef,
      asSession = Some \<lparr>mi_ref = refName, mi_mountPoint = mountPoint\<rparr>\<rparr>"

definition emptyContent :: content where
  "emptyContent = \<lparr>asRef = None, asSession = None\<rparr>"

text \<open>
  Directories: \<open>entryName d p\<close> is the name of \<open>p\<close> as an entry of the directory \<open>d\<close>,
  \<open>under d p\<close> says that \<open>p\<close> is \<open>d\<close> or lies below it, \<open>readDirFiles\<close> lists the
  regular files of a directory by entry name (in the order of the store; the program
  never depends on the order).
\<close>

definition dirPrefix :: "string \<Rightarrow> string" where
  "dirPrefix d = (if d = ''/'' then d else d @ ''/'')"

definition entryName :: "string \<Rightarrow> string \<Rightarrow> string option" where
  "entryName d p =
     (if prefix (dirPrefix d) p then
        (let f = drop (length (dirPrefix d)) p in
         if f \<noteq> [] \<and> CHR ''/'' \<notin> set f then Some f else None)
      else None)"

definition under :: "string \<Rightarrow> string \<Rightarrow> bool" where
  "under d p = (p = d \<or> prefix (dirPrefix d) p)"

definition readDirFiles :: "world \<Rightarrow> string \<Rightarrow> (string \<times> content) list" where
  "readDirFiles w d =
     concat (map (\<lambda>(p, c). case entryName d p of
                              None \<Rightarrow> []
                            | Some f \<Rightarrow> (if map_of (files w) p = Some c then [(f, c)] else []))
               (files w))"

definition rmTree :: "string \<Rightarrow> string set \<Rightarrow> string set" where
  "rmTree p ds = Set.filter (\<lambda>q. \<not> under p q) ds"

section \<open>Helper methods\<close>

definition forbiddenChars :: string where
  "forbiddenChars =
     [CHR ''/'', CHR 0x5C, CHR '':'', CHR ''*'', CHR ''?'', CHR 0x22, CHR ''<'', CHR ''>'', CHR ''|'']"

definition validateRefName :: "string \<Rightarrow> error option" where
  "validateRefName name =
     (if name = [] then Some InvalidName
      else if list_ex (\<lambda>c. c \<in> set forbiddenChars) name then Some InvalidName
      else None)"

fun showNat :: "nat \<Rightarrow> string" where
  "showNat n =
     (if n < 10 then [char_of (48 + n)]
      else showNat (n div 10) @ [char_of (48 + n mod 10)])"

declare showNat.simps [simp del]

definition showInt :: "int \<Rightarrow> string" where
  "showInt i = (if i < 0 then CHR ''-'' # showNat (nat (- i)) else showNat (nat i))"

definition generateLayerID :: "env \<Rightarrow> string" where
  "generateLayerID e = ''layer_'' @ showInt (now e 0)"

definition layerPath :: "env \<Rightarrow> string \<Rightarrow> string" where
  "layerPath e layerID = pjoin e [repoPath e, ''layers'', layerID]"

definition workPath :: "env \<Rightarrow> string \<Rightarrow> string" where
  "workPath e layerID = pjoin e [repoPath e, ''work'', layerID]"

definition refPath :: "env \<Rightarrow> string \<Rightarrow> string" where
  "refPath e name = pjoin e [repoPath e, ''refs'', name @ ''.json'']"

definition mountFile :: "env \<Rightarrow> string \<Rightarrow> string" where
  "mountFile e mountPoint = pjoin e [repoPath e, ''mounts'', pbase e mountPoint @ ''.json'']"

text \<open>The file that holds the ref of a name: the path of \<open>getRef\<close> and \<open>saveRef\<close>, resolved.\<close>

definition refFile :: "env \<Rightarrow> string \<Rightarrow> string" where
  "refFile e name = resolve e (refPath e name)"

text \<open>
  \<open>saveRef\<close> writes \<open>refs/<ref.Name>.json\<close>, over whatever is there.
  \<open>json.MarshalIndent\<close> does not fail on a \<open>Ref\<close>, so the write is its only error.
\<close>

definition saveRef :: "env \<Rightarrow> world \<Rightarrow> Ref \<Rightarrow> error option \<times> world" where
  "saveRef e w ref =
     (case writeFile e (refPath e (Name ref)) of
        WriteOk \<Rightarrow>
          (None, w\<lparr>files := AList.update (refFile e (Name ref)) (refContent ref) (files w)\<rparr>)
      | WriteOpenErr n \<Rightarrow> (Some (IOError n), w)
      | WriteTruncErr n \<Rightarrow>
          (Some (IOError n),
           w\<lparr>files := AList.update (refFile e (Name ref)) emptyContent (files w)\<rparr>))"

text \<open>
  \<open>getRef\<close> reads the file at \<open>filepath.Join(repoPath, "refs", name+".json")\<close> and decodes
  it; the name is not validated, so it may hold path syntax.
\<close>

definition getRef :: "env \<Rightarrow> world \<Rightarrow> string \<Rightarrow> Ref option" where
  "getRef e w name =
     (case map_of (files w) (refFile e name) of
        None \<Rightarrow> None
      | Some c \<Rightarrow> asRef c)"

text \<open>
  The loop of \<open>buildLowerDirs\<close> follows the parent links until a ref has no parent or
  the parent cannot be read. Nothing bounds it, so it is a partial function: \<open>None\<close>
  is a loop that never returns.
\<close>

partial_function (option) buildLowerDirs_loop ::
  "env \<Rightarrow> world \<Rightarrow> Ref \<Rightarrow> string list \<Rightarrow> string list option" where
  "buildLowerDirs_loop e w current ds =
     (if Parent current \<noteq> [] then
        (case getRef e w (Parent current) of
           None \<Rightarrow> Some ds
         | Some parent \<Rightarrow>
             buildLowerDirs_loop e w parent (ds @ [layerPath e (LayerID parent)]))
      else Some ds)"

definition buildLowerDirs :: "env \<Rightarrow> world \<Rightarrow> Ref \<Rightarrow> string list option" where
  "buildLowerDirs e w ref = buildLowerDirs_loop e w ref []"

text \<open>
  The \<open>size\<close> command of \<open>main\<close> walks the same chain, from the ref itself, and
  stops at a layer identifier it has seen; the model returns the layer identifiers
  whose directories it measures, in order.
\<close>

definition layerIDs :: "world \<Rightarrow> string set" where
  "layerIDs w = (\<lambda>c. case asRef c of None \<Rightarrow> [] | Some r \<Rightarrow> LayerID r) ` snd ` set (files w)"

function sizeChain ::
  "env \<Rightarrow> world \<Rightarrow> Ref \<Rightarrow> string set \<Rightarrow> string list \<Rightarrow> string list" where
  "sizeChain e w current seen visited =
     (if LayerID current \<in> seen then visited
      else if Parent current = [] then visited @ [LayerID current]
      else
        (case getRef e w (Parent current) of
           None \<Rightarrow> visited @ [LayerID current]
         | Some parentRef \<Rightarrow>
             sizeChain e w parentRef (insert (LayerID current) seen)
               (visited @ [LayerID current])))"
  by pat_completeness auto
termination
proof (relation "measure (\<lambda>(e, w, current, seen, visited).
    card (insert (LayerID current) (layerIDs w) - seen))", goal_cases)
  case 1
  then show ?case by simp
next
  case (2 e w current seen visited parentRef)
  then obtain c where "map_of (files w) (refFile e (Parent current)) = Some c"
    "asRef c = Some parentRef"
    by (auto simp: getRef_def split: option.splits)
  then have "(refFile e (Parent current), c) \<in> set (files w)" "asRef c = Some parentRef"
    by (simp_all add: map_of_SomeD)
  then have p: "LayerID parentRef \<in> layerIDs w"
    by (force simp: layerIDs_def)
  have fin: "finite (insert (LayerID current) (layerIDs w) - seen)"
    by (simp add: layerIDs_def)
  have "insert (LayerID parentRef) (layerIDs w) - insert (LayerID current) seen \<subset>
        insert (LayerID current) (layerIDs w) - seen"
    using p 2(1) by auto
  with fin show ?case by (simp add: psubset_card_mono)
qed

declare sizeChain.simps [simp del]

definition isMounted :: "env \<Rightarrow> string \<Rightarrow> bool" where
  "isMounted e mountPoint =
     (case procMounts e of
        None \<Rightarrow> False
      | Some data \<Rightarrow>
          sublist (case pabs e mountPoint of None \<Rightarrow> [] | Some a \<Rightarrow> a) data)"

section \<open>Creating refs\<close>

definition CreateEmptyRef :: "env \<Rightarrow> world \<Rightarrow> string \<Rightarrow> error option \<times> world" where
  "CreateEmptyRef e w name =
     (case validateRefName name of
        Some err \<Rightarrow> (Some err, w)
      | None \<Rightarrow>
          (let layerID = generateLayerID e in
           case mkdirAll e (layerPath e layerID) of
             Some n \<Rightarrow> (Some (IOError n), w)
           | None \<Rightarrow>
               saveRef e (w\<lparr>dirs := insert (resolve e (layerPath e layerID)) (dirs w)\<rparr>)
                 \<lparr>Name = name, Parent = [], LayerID = layerID,
                  CreatedAt = now e 1, Metadata = []\<rparr>))"

definition CreateRefFromParent ::
  "env \<Rightarrow> world \<Rightarrow> string \<Rightarrow> string \<Rightarrow> error option \<times> world" where
  "CreateRefFromParent e w name parent =
     (case validateRefName name of
        Some err \<Rightarrow> (Some err, w)
      | None \<Rightarrow>
          (case getRef e w parent of
             None \<Rightarrow> (Some ParentNotFound, w)
           | Some parentRef \<Rightarrow>
               (let layerID = generateLayerID e in
                case mkdirAll e (layerPath e layerID) of
                  Some n \<Rightarrow> (Some (IOError n), w)
                | None \<Rightarrow>
                    saveRef e (w\<lparr>dirs := insert (resolve e (layerPath e layerID)) (dirs w)\<rparr>)
                      \<lparr>Name = name, Parent = parent, LayerID = layerID,
                       CreatedAt = now e 1, Metadata = Metadata parentRef\<rparr>)))"

section \<open>Mounting\<close>

fun joinStrings :: "string list \<Rightarrow> string \<Rightarrow> string" where
  "joinStrings [] sep = []"
| "joinStrings [x] sep = x"
| "joinStrings (x # y # ys) sep = x @ sep @ joinStrings (y # ys) sep"

definition overlayOpts :: "string \<Rightarrow> string \<Rightarrow> string \<Rightarrow> string" where
  "overlayOpts lower upper work =
     ''lowerdir='' @ lower @ '',upperdir='' @ upper @ '',workdir='' @ work"

definition saveMountInfo ::
  "env \<Rightarrow> world \<Rightarrow> string \<Rightarrow> string \<Rightarrow> error option \<times> world" where
  "saveMountInfo e w refName mountPoint =
     (case writeFile e (mountFile e mountPoint) of
        WriteOk \<Rightarrow>
          (None, w\<lparr>files := AList.update (resolve e (mountFile e mountPoint))
                     (sessionContent refName mountPoint) (files w)\<rparr>)
      | WriteOpenErr n \<Rightarrow> (Some (IOError n), w)
      | WriteTruncErr n \<Rightarrow>
          (Some (IOError n),
           w\<lparr>files := AList.update (resolve e (mountFile e mountPoint)) emptyContent
                  (files w)\<rparr>))"

text \<open>
  \<open>Mount\<close> returns its error (or \<open>None\<close> for nil), the world it leaves and the system
  calls it made; the whole result is \<open>None\<close> when the call never returns.
\<close>

definition Mount ::
  "env \<Rightarrow> world \<Rightarrow> string \<Rightarrow> string \<Rightarrow> (error option \<times> world \<times> event list) option" where
  "Mount e w refName mountPoint =
     (case getRef e w refName of
        None \<Rightarrow> Some (Some RefNotFound, w, [])
      | Some ref \<Rightarrow>
          (case mkdirAll e mountPoint of
             Some n \<Rightarrow> Some (Some (IOError n), w, [])
           | None \<Rightarrow>
               (let w1 = w\<lparr>dirs := insert (resolve e mountPoint) (dirs w)\<rparr> in
                if isMounted e mountPoint then Some (Some AlreadyMounted, w1, [])
                else
                  (case buildLowerDirs e w1 ref of
                     None \<Rightarrow> None
                   | Some lowerDirs \<Rightarrow>
                       (let upperDir = layerPath e (LayerID ref);
                            workDir = workPath e (LayerID ref) in
                        case mkdirAll e workDir of
                          Some n \<Rightarrow> Some (Some (IOError n), w1, [])
                        | None \<Rightarrow>
                            (let w2 = w1\<lparr>dirs := insert (resolve e workDir) (dirs w1)\<rparr>;
                                 opts = (if length lowerDirs > 0
                                         then overlayOpts (joinStrings lowerDirs '':'') upperDir workDir
                                         else overlayOpts upperDir upperDir workDir);
                                 ev1 = EvMount ''overlay'' mountPoint ''overlay'' 0 opts in
                             case sysMount e ''overlay'' mountPoint ''overlay'' 0 opts of
                               Some n \<Rightarrow>
                                 Some (map_option MountFailed
                                         (sysMount e upperDir mountPoint [] MS_BIND []),
                                       w2, [ev1, EvMount upperDir mountPoint [] MS_BIND []])
                             | None \<Rightarrow>
                                 (case saveMountInfo e w2 refName mountPoint of
                                    (r, w3) \<Rightarrow> Some (r, w3, [ev1]))))))))"

section \<open>Unmounting\<close>

definition removeMountInfo :: "env \<Rightarrow> world \<Rightarrow> string \<Rightarrow> world" where
  "removeMountInfo e w mountPoint =
     (case removeFile e (mountFile e mountPoint) of
        None \<Rightarrow> w\<lparr>files := AList.delete (resolve e (mountFile e mountPoint)) (files w)\<rparr>
      | Some n \<Rightarrow> w)"

definition killProcessesUsingMount :: "string \<Rightarrow> string list option \<Rightarrow> event list" where
  "killProcessesUsingMount mountPoint out =
     [EvExec [''fuser'', ''-km'', mountPoint], EvExec [''lsof'', ''-t'', ''+D'', mountPoint]] @
     (case out of
        None \<Rightarrow> []
      | Some pids \<Rightarrow>
          map (\<lambda>pid. EvExec [''kill'', ''-TERM'', pid]) pids @ [EvSleep 100] @
          map (\<lambda>pid. EvExec [''kill'', ''-KILL'', pid]) pids)"

text \<open>
  A round of the retry loop up to its unmount call: from the second round on the
  backoff sleep and a sync, and with force the kill and its grace sleep.
\<close>

definition beforeAttempt :: "env \<Rightarrow> string \<Rightarrow> bool \<Rightarrow> nat \<Rightarrow> event list" where
  "beforeAttempt e absPath force i =
     (if i > 0 then [EvSleep (100 * (i + 1)), EvSync] else []) @
     (if force \<and> i > 0
      then killProcessesUsingMount absPath (lsofOut e i) @ [EvSleep 200] else [])"

function unmountLoop ::
  "env \<Rightarrow> world \<Rightarrow> string \<Rightarrow> string \<Rightarrow> bool \<Rightarrow> nat \<Rightarrow> nat \<Rightarrow> errno option
     \<Rightarrow> error option \<times> world \<times> event list" where
  "unmountLoop e w mountPoint absPath force maxRetries i lastErr =
     (if i < maxRetries then
        (let pre = beforeAttempt e absPath force i @ [EvUnmount mountPoint 0] in
         case sysUnmount e i of
           None \<Rightarrow> (None, removeMountInfo e w mountPoint, pre)
         | Some err \<Rightarrow>
             (if i = maxRetries - 1 then
                (case sysDetach e of
                   None \<Rightarrow>
                     (None, removeMountInfo e w mountPoint,
                      pre @ [EvUnmount mountPoint MNT_DETACH])
                 | Some err2 \<Rightarrow>
                     (case unmountLoop e w mountPoint absPath force maxRetries (i + 1) (Some err) of
                        (r, w', tr) \<Rightarrow> (r, w', pre @ [EvUnmount mountPoint MNT_DETACH] @ tr)))
              else
                (case unmountLoop e w mountPoint absPath force maxRetries (i + 1) (Some err) of
                   (r, w', tr) \<Rightarrow> (r, w', pre @ tr))))
      else (Some (UnmountFailed lastErr), w, []))"
  by pat_completeness auto
termination
  by (relation "measure (\<lambda>(e, w, mountPoint, absPath, force, maxRetries, i, lastErr). maxRetries - i)")
    auto

declare unmountLoop.simps [simp del]

definition unmountWithOptions ::
  "env \<Rightarrow> world \<Rightarrow> string \<Rightarrow> bool \<Rightarrow> error option \<times> world \<times> event list" where
  "unmountWithOptions e w mountPoint force =
     (if \<not> isMounted e mountPoint then (Some NotMounted, w, [])
      else
        (let absPath = (case pabs e mountPoint of None \<Rightarrow> mountPoint | Some a \<Rightarrow> a);
             maxRetries = (if force then 5 else 3) in
         case unmountLoop e w mountPoint absPath force maxRetries 0 None of
           (r, w', tr) \<Rightarrow> (r, w', EvSync # tr)))"

definition Unmount :: "env \<Rightarrow> world \<Rightarrow> string \<Rightarrow> error option \<times> world \<times> event list" where
  "Unmount e w mountPoint = unmountWithOptions e w mountPoint False"

definition UnmountForce :: "env \<Rightarrow> world \<Rightarrow> string \<Rightarrow> error option \<times> world \<times> event list" where
  "UnmountForce e w mountPoint = unmountWithOptions e w mountPoint True"

section \<open>Deleting refs\<close>

text \<open>
  \<open>ListRefs\<close> reads the entries of \<open>refs/\<close> that are files with the suffix \<open>.json\<close> and
  keeps those that decode; \<open>IsMountedRef\<close> does the same in \<open>mounts/\<close> and compares the
  key \<open>ref\<close> of each with the name, as a string.
\<close>

definition ListRefs :: "env \<Rightarrow> world \<Rightarrow> error + Ref list" where
  "ListRefs e w =
     (case readDir e (pjoin e [repoPath e, ''refs'']) of
        Some n \<Rightarrow> Inl (IOError n)
      | None \<Rightarrow>
          Inr (concat (map (\<lambda>(f, c). if suffix ''.json'' f
                                      then (case asRef c of None \<Rightarrow> [] | Some r \<Rightarrow> [r])
                                      else [])
                         (readDirFiles w (resolve e (pjoin e [repoPath e, ''refs'']))))))"

definition HasChildren :: "env \<Rightarrow> world \<Rightarrow> string \<Rightarrow> error + bool" where
  "HasChildren e w refName =
     (case ListRefs e w of
        Inl err \<Rightarrow> Inl err
      | Inr rs \<Rightarrow> Inr (list_ex (\<lambda>r. Parent r = refName) rs))"

definition IsMountedRef :: "env \<Rightarrow> world \<Rightarrow> string \<Rightarrow> error + bool" where
  "IsMountedRef e w refName =
     (case readDir e (pjoin e [repoPath e, ''mounts'']) of
        Some n \<Rightarrow> (if n = ENOENT then Inr False else Inl (IOError n))
      | None \<Rightarrow>
          Inr (list_ex (\<lambda>(f, c). suffix ''.json'' f \<and>
                                 (case asSession c of
                                    None \<Rightarrow> False
                                  | Some info \<Rightarrow> mi_ref info = refName))
                 (readDirFiles w (resolve e (pjoin e [repoPath e, ''mounts''])))))"

text \<open>
  \<open>os.Remove\<close> of the ref file and \<open>os.RemoveAll\<close> of a directory, with the test the
  caller applies to the error (\<open>err != nil && !os.IsNotExist(err)\<close>). \<open>RemoveAll\<close>
  takes everything below the path with it.
\<close>

definition osRemoveRef :: "env \<Rightarrow> world \<Rightarrow> string \<Rightarrow> error option \<times> world" where
  "osRemoveRef e w name =
     (case removeFile e (refPath e name) of
        None \<Rightarrow> (None, w\<lparr>files := AList.delete (refFile e name) (files w)\<rparr>)
      | Some n \<Rightarrow> (if n \<noteq> ENOENT then Some (IOError n) else None, w))"

definition osRemoveAll :: "env \<Rightarrow> world \<Rightarrow> string \<Rightarrow> error option \<times> world" where
  "osRemoveAll e w p =
     (case removeAll e p of
        None \<Rightarrow>
          (None, w\<lparr>files := filter (\<lambda>(q, c). \<not> under (resolve e p) q) (files w),
                   dirs := rmTree (resolve e p) (dirs w)\<rparr>)
      | Some n \<Rightarrow> (if n \<noteq> ENOENT then Some (IOError n) else None, w))"

definition DeleteRef :: "env \<Rightarrow> world \<Rightarrow> string \<Rightarrow> bool \<Rightarrow> error option \<times> world" where
  "DeleteRef e w name force =
     (case getRef e w name of
        None \<Rightarrow> (Some RefNotFound, w)
      | Some ref \<Rightarrow>
          (case (if \<not> force then
                   (case HasChildren e w name of
                      Inl err \<Rightarrow> Some err
                    | Inr hasChildren \<Rightarrow>
                        (if hasChildren then Some HasChildrenErr
                         else
                           (case IsMountedRef e w name of
                              Inl err \<Rightarrow> Some err
                            | Inr isMountedRef \<Rightarrow>
                                (if isMountedRef then Some RefMounted else None))))
                 else None) of
             Some err \<Rightarrow> (Some err, w)
           | None \<Rightarrow>
               (case osRemoveRef e w name of
                  (Some err, w1) \<Rightarrow> (Some err, w1)
                | (None, w1) \<Rightarrow>
                    (case osRemoveAll e w1 (layerPath e (LayerID ref)) of
                       (Some err, w2) \<Rightarrow> (Some err, w2)
                     | (None, w2) \<Rightarrow>
                         (None, snd (osRemoveAll e w2 (workPath e (LayerID ref))))))))"

section \<open>The path functions of the standard library\<close>

text \<open>
  \<open>filepath.Clean\<close>, \<open>filepath.Join\<close>, \<open>filepath.Base\<close> and \<open>filepath.Abs\<close> on Unix, for
  the example environments. \<open>Clean\<close> drops empty and \<open>.\<close> elements, lets \<open>..\<close> take
  the element before it away (at the root nothing, at the start of a relative path
  the \<open>..\<close> stays); \<open>Join\<close> cleans the elements from the first non-empty one on,
  joined by slashes.
\<close>

fun splitOn :: "char \<Rightarrow> string \<Rightarrow> string list" where
  "splitOn c [] = [[]]"
| "splitOn c (x # xs) =
     (if x = c then [] # splitOn c xs
      else (case splitOn c xs of [] \<Rightarrow> [[x]] | y # ys \<Rightarrow> (x # y) # ys))"

definition cleanStep :: "bool \<Rightarrow> nat \<times> string list \<Rightarrow> string \<Rightarrow> nat \<times> string list" where
  "cleanStep rooted st c =
     (case st of (ups, stack) \<Rightarrow>
        if c = [] \<or> c = ''.'' then (ups, stack)
        else if c = ''..'' then
          (case stack of
             x # rest \<Rightarrow> (ups, rest)
           | [] \<Rightarrow> (if rooted then (ups, []) else (Suc ups, [])))
        else (ups, c # stack))"

definition goClean :: "string \<Rightarrow> string" where
  "goClean path =
     (if path = [] then ''.''
      else
        (let rooted = (hd path = CHR ''/'');
             st = foldl (cleanStep rooted) (0, []) (splitOn CHR ''/'' path);
             body = joinStrings (replicate (fst st) ''..'' @ rev (snd st)) ''/''
         in if rooted then CHR ''/'' # body
            else if body = [] then ''.'' else body))"

definition goJoin :: "string list \<Rightarrow> string" where
  "goJoin elems =
     (case dropWhile (\<lambda>el. el = []) elems of
        [] \<Rightarrow> []
      | es \<Rightarrow> goClean (joinStrings es ''/''))"

definition goBase :: "string \<Rightarrow> string" where
  "goBase path =
     (if path = [] then ''.''
      else
        (let p = rev (dropWhile (\<lambda>c. c = CHR ''/'') (rev path));
             b = rev (takeWhile (\<lambda>c. c \<noteq> CHR ''/'') (rev p))
         in if b = [] then ''/'' else b))"

definition goAbs :: "string \<Rightarrow> string \<Rightarrow> string" where
  "goAbs cwd path =
     (if path \<noteq> [] \<and> hd path = CHR ''/'' then goClean path else goJoin [cwd, path])"

section \<open>Notions the properties are stated with\<close>

text \<open>
  The ancestors of a ref whose chain of parents ends at a root, nearest parent first.
  The predicate is inductive, so a chain that runs into a cycle has no ancestor list.
\<close>

inductive ancestors :: "env \<Rightarrow> world \<Rightarrow> Ref \<Rightarrow> Ref list \<Rightarrow> bool" where
  root: "Parent r = [] \<Longrightarrow> ancestors e w r []"
| step: "Parent r \<noteq> [] \<Longrightarrow> getRef e w (Parent r) = Some p \<Longrightarrow> ancestors e w p ps
         \<Longrightarrow> ancestors e w r (p # ps)"

code_pred ancestors .

text \<open>
  The parent relation, on the files that hold refs: \<open>(a, b)\<close> when the file \<open>a\<close>
  decodes into a ref whose parent, read as \<open>getRef\<close> reads it, is the file \<open>b\<close>. A
  store is acyclic when no file is its own transitive ancestor, and closed when every
  parent that is named can be read.
\<close>

definition parentRel :: "env \<Rightarrow> world \<Rightarrow> (string \<times> string) set" where
  "parentRel e w =
     {(a, b). \<exists>c r. map_of (files w) a = Some c \<and> asRef c = Some r \<and> Parent r \<noteq> [] \<and>
                    b = refFile e (Parent r)}"

definition acyclicStore :: "env \<Rightarrow> world \<Rightarrow> bool" where
  "acyclicStore e w = (\<forall>a. (a, a) \<notin> (parentRel e w)\<^sup>+)"

definition closedStore :: "env \<Rightarrow> world \<Rightarrow> bool" where
  "closedStore e w =
     (\<forall>a c r. map_of (files w) a = Some c \<longrightarrow> asRef c = Some r \<longrightarrow> Parent r \<noteq> [] \<longrightarrow>
        getRef e w (Parent r) \<noteq> None)"

text \<open>Sequences of the two creating operations, each run in an environment of its own.\<close>

datatype op = CreateRoot string | CreateChild string string

fun opName :: "op \<Rightarrow> string" where
  "opName (CreateRoot name) = name"
| "opName (CreateChild name parent) = name"

fun applyOp :: "env \<Rightarrow> world \<Rightarrow> op \<Rightarrow> world" where
  "applyOp e w (CreateRoot name) = snd (CreateEmptyRef e w name)"
| "applyOp e w (CreateChild name parent) = snd (CreateRefFromParent e w name parent)"

fun runOps :: "(env \<times> op) list \<Rightarrow> world \<Rightarrow> world" where
  "runOps [] w = w"
| "runOps ((e, c) # cs) w = runOps cs (applyOp e w c)"

text \<open>
  Every operation of the sequence creates a name under which no ref can be read when
  it runs, and every operation runs on the same repository: its names go to the same
  files as those of \<open>e0\<close>.
\<close>

fun freshOps :: "(env \<times> op) list \<Rightarrow> world \<Rightarrow> bool" where
  "freshOps [] w = True"
| "freshOps ((e, c) # cs) w = (getRef e w (opName c) = None \<and> freshOps cs (applyOp e w c))"


text \<open>
  Reading a trace of the unmount loop: an attempt is a plain unmount call (flags 0),
  \<open>afterAttempt n tr\<close> is what follows the n-th attempt of \<open>tr\<close>, and an external
  command is what \<open>killProcessesUsingMount\<close> runs.
\<close>

fun isAttempt :: "event \<Rightarrow> bool" where
  "isAttempt (EvUnmount p flags) = (flags = 0)"
| "isAttempt ev = False"

definition attempts :: "event list \<Rightarrow> nat" where
  "attempts tr = length (filter isAttempt tr)"

fun afterAttempt :: "nat \<Rightarrow> event list \<Rightarrow> event list" where
  "afterAttempt 0 tr = tr"
| "afterAttempt (Suc n) [] = []"
| "afterAttempt (Suc n) (ev # tr) =
     (if isAttempt ev then afterAttempt n tr else afterAttempt (Suc n) tr)"

fun isExec :: "event \<Rightarrow> bool" where
  "isExec (EvExec cmd) = True"
| "isExec ev = False"

text \<open>
  The entries of the mount table: each line of \<open>/proc/mounts\<close> is
  \<open>device mountpoint fstype options dump pass\<close>, separated by single spaces; the
  mount points are the second fields.
\<close>

definition mountTargets :: "string \<Rightarrow> string list" where
  "mountTargets data =
     concat (map (\<lambda>l. case splitOn CHR '' '' l of d # t # rest \<Rightarrow> [t] | _ \<Rightarrow> [])
               (splitOn (CHR 0x0A) data))"

text \<open>The system calls of the retry loop from round \<open>i\<close> on.\<close>

definition loopTrace ::
  "env \<Rightarrow> world \<Rightarrow> string \<Rightarrow> string \<Rightarrow> bool \<Rightarrow> nat \<Rightarrow> nat \<Rightarrow> errno option \<Rightarrow> event list" where
  "loopTrace e w mountPoint absPath force maxRetries i lastErr =
     snd (snd (unmountLoop e w mountPoint absPath force maxRetries i lastErr))"

section \<open>Example environments and stores\<close>

text \<open>
  An environment in which every call succeeds and nothing is mounted: the repository
  is \<open>/repo\<close>, the working directory \<open>/\<close>, there are no symbolic links, so that a path
  names the file at its absolute, cleaned form.
\<close>

definition exEnv :: "int \<Rightarrow> env" where
  "exEnv t =
     \<lparr>repoPath = ''/repo'',
      pjoin = goJoin,
      pbase = goBase,
      pabs = (\<lambda>p. Some (goAbs ''/'' p)),
      resolve = goAbs ''/'',
      now = (\<lambda>k. t + int k),
      mkdirAll = (\<lambda>p. None),
      writeFile = (\<lambda>p. WriteOk),
      readDir = (\<lambda>p. None),
      removeFile = (\<lambda>p. None),
      removeAll = (\<lambda>p. None),
      procMounts = Some [],
      sysMount = (\<lambda>src tgt fstype flags data. None),
      sysUnmount = (\<lambda>i. None),
      sysDetach = None,
      lsofOut = (\<lambda>i. None)\<rparr>"

definition emptyWorld :: world where
  "emptyWorld = \<lparr>files = [], dirs = {}\<rparr>"

definition baseRef :: Ref where
  "baseRef = \<lparr>Name = ''base'', Parent = [], LayerID = ''layer_1'', CreatedAt = 1,
              Metadata = [(''os'', ''linux'')]\<rparr>"

definition devRef :: Ref where
  "devRef = \<lparr>Name = ''dev'', Parent = ''base'', LayerID = ''layer_2'', CreatedAt = 2,
             Metadata = [(''os'', ''linux'')]\<rparr>"

definition exWorld :: world where
  "exWorld =
     \<lparr>files = [(''/repo/refs/base.json'', refContent baseRef),
               (''/repo/refs/dev.json'', refContent devRef)],
      dirs = {''/repo/layers/layer_1'', ''/repo/layers/layer_2''}\<rparr>"

text \<open>The same environment on a kernel that refuses overlay mounts and accepts bind mounts.\<close>

definition bindOnlyEnv :: env where
  "bindOnlyEnv = (exEnv 5)\<lparr>sysMount :=
      (\<lambda>src tgt fstype flags data. if fstype = ''overlay'' then Some 19 else None)\<rparr>"


text \<open>\<open>gotree <repo> create a\<close>, then \<open>gotree <repo> create a a\<close>, and the store they leave.\<close>

definition cycOps :: "(env \<times> op) list" where
  "cycOps = [(exEnv 1, CreateRoot ''a''), (exEnv 2, CreateChild ''a'' ''a'')]"

definition cycWorld :: world where
  "cycWorld = runOps cycOps emptyWorld"

definition cycRef :: Ref where
  "cycRef = \<lparr>Name = ''a'', Parent = ''a'', LayerID = generateLayerID (exEnv 2),
             CreatedAt = 3, Metadata = []\<rparr>"

text \<open>
  A store with a dangling parent: \<open>b\<close> names the parent \<open>a\<close>, which is not stored (as
  after \<open>gotree <repo> rm a --force\<close>), and \<open>gotree <repo> create a b\<close> on it.
\<close>

definition danglingWorld :: world where
  "danglingWorld =
     \<lparr>files = [(''/repo/refs/b.json'',
                 refContent \<lparr>Name = ''b'', Parent = ''a'', LayerID = ''layer_3'',
                              CreatedAt = 3, Metadata = []\<rparr>)],
      dirs = {''/repo/layers/layer_3''}\<rparr>"

definition danglingOps :: "(env \<times> op) list" where
  "danglingOps = [(exEnv 7, CreateChild ''a'' ''b'')]"

text \<open>
  \<open>dev\<close> mounted at \<open>/mnt/dev\<close>: the mount table has the entry, the store has the
  session. In \<open>mountedEnv\<close> every unmount succeeds; in \<open>busyEnv\<close> every plain unmount
  fails with \<open>EBUSY\<close> (16) and the detaching one with \<open>EINVAL\<close> (22).
\<close>

definition mountedEnv :: env where
  "mountedEnv =
     (exEnv 5)\<lparr>procMounts := Some (''overlay /mnt/dev overlay rw 0 0'' @ [CHR 0x0A])\<rparr>"

definition busyEnv :: env where
  "busyEnv = mountedEnv\<lparr>sysUnmount := (\<lambda>i. Some 16), sysDetach := Some 22\<rparr>"

definition mountedWorld :: world where
  "mountedWorld =
     exWorld\<lparr>files := files exWorld @
                [(''/repo/mounts/dev.json'', sessionContent ''dev'' ''/mnt/dev'')]\<rparr>"

text \<open>A mount table whose only entry is \<open>/mnt/ab\<close>.\<close>

definition prefixTable :: string where
  "prefixTable = ''overlay /mnt/ab overlay rw 0 0'' @ [CHR 0x0A]"

definition prefixEnv :: env where
  "prefixEnv = (exEnv 5)\<lparr>procMounts := Some prefixTable\<rparr>"

section \<open>Facts about the example environments\<close>

lemma exEnv_simps:
  "mkdirAll (exEnv t) p = None" "writeFile (exEnv t) p = WriteOk"
  "now (exEnv t) k = t + int k" "procMounts (exEnv t) = Some []"
  "pabs (exEnv t) p = Some (goAbs ''/'' p)" "readDir (exEnv t) p = None"
  "removeFile (exEnv t) p = None" "removeAll (exEnv t) p = None"
  "repoPath (exEnv t) = ''/repo''" "pjoin (exEnv t) = goJoin"
  "pbase (exEnv t) = goBase" "resolve (exEnv t) = goAbs ''/''"
  by (simp_all add: exEnv_def)

lemma go_paths:
  "goAbs ''/'' ''/mnt/dev'' = ''/mnt/dev''" "goAbs ''/'' ''/mnt/a'' = ''/mnt/a''"
  "goBase ''/mnt/dev'' = ''dev''"
  "goAbs ''/'' ''/repo/layers/layer_1'' = ''/repo/layers/layer_1''"
  "goAbs ''/'' ''/repo/layers/layer_2'' = ''/repo/layers/layer_2''"
  "goAbs ''/'' ''/repo/work/layer_1'' = ''/repo/work/layer_1''"
  "goAbs ''/'' ''/repo/work/layer_2'' = ''/repo/work/layer_2''"
  "goAbs ''/'' ''/repo/refs'' = ''/repo/refs''" "goAbs ''/'' ''/repo/mounts'' = ''/repo/mounts''"
  "goJoin [''/repo'', ''refs''] = ''/repo/refs''" "goJoin [''/repo'', ''mounts''] = ''/repo/mounts''"
  "goJoin [''/repo'', ''layers'', ''layer_1''] = ''/repo/layers/layer_1''"
  "goJoin [''/repo'', ''layers'', ''layer_2''] = ''/repo/layers/layer_2''"
  "goJoin [''/repo'', ''work'', ''layer_1''] = ''/repo/work/layer_1''"
  "goJoin [''/repo'', ''work'', ''layer_2''] = ''/repo/work/layer_2''"
  by (simp_all add: goJoin_def goClean_def cleanStep_def goBase_def goAbs_def)

lemma exEnv_refFile:
  "refFile (exEnv t) ''base'' = ''/repo/refs/base.json''"
  "refFile (exEnv t) ''dev'' = ''/repo/refs/dev.json''"
  "refFile (exEnv t) ''a'' = ''/repo/refs/a.json''"
  "refFile (exEnv t) ''b'' = ''/repo/refs/b.json''"
  "refFile (exEnv t) ''nope'' = ''/repo/refs/nope.json''"
  "refFile (exEnv t) ''./base'' = ''/repo/refs/base.json''"
  by (simp_all add: refFile_def refPath_def exEnv_simps goJoin_def goClean_def cleanStep_def
      goAbs_def)

lemma exEnv_mountFile:
  "resolve (exEnv t) (mountFile (exEnv t) ''/mnt/dev'') = ''/repo/mounts/dev.json''"
  by (simp add: mountFile_def exEnv_simps goJoin_def goClean_def cleanStep_def goAbs_def
      goBase_def)


lemma validate_examples:
  "validateRefName ''base'' = None" "validateRefName ''dev'' = None"
  "validateRefName ''a'' = None" "validateRefName ''b'' = None"
  by (simp_all add: validateRefName_def forbiddenChars_def)

lemma asRef_simps:
  "asRef (refContent r) = Some r" "asRef (sessionContent n p) = Some zeroRef"
  "asRef emptyContent = None"
  by (simp_all add: refContent_def sessionContent_def emptyContent_def)

lemma getRef_frame: "files w' = files w \<Longrightarrow> getRef e w' name = getRef e w name"
  by (simp add: getRef_def)

lemma exWorld_refs:
  "getRef (exEnv t) exWorld ''dev'' = Some devRef"
  "getRef (exEnv t) exWorld ''base'' = Some baseRef"
  "getRef (exEnv t) exWorld ''nope'' = None"
  "getRef (exEnv t) exWorld ''./base'' = Some baseRef"
  by (simp_all add: getRef_def exEnv_refFile exWorld_def asRef_simps)

lemma mounted_dev: "isMounted mountedEnv ''/mnt/dev''" "isMounted busyEnv ''/mnt/dev''"
  by (simp_all add: isMounted_def mountedEnv_def busyEnv_def exEnv_def go_paths sublist_code
      prefix_code)

lemma busyEnv_simps:
  "sysUnmount busyEnv i = Some 16" "sysDetach busyEnv = Some 22"
  "pabs busyEnv p = Some (goAbs ''/'' p)"
  by (simp_all add: busyEnv_def mountedEnv_def exEnv_def)

lemma mountedEnv_simps:
  "sysUnmount mountedEnv i = None" "removeFile mountedEnv p = None"
  "pabs mountedEnv p = Some (goAbs ''/'' p)"
  "resolve mountedEnv (mountFile mountedEnv ''/mnt/dev'') = ''/repo/mounts/dev.json''"
  using exEnv_mountFile [of 5]
  by (simp_all add: busyEnv_def mountedEnv_def exEnv_def mountFile_def)

lemma files_cycWorld: "files cycWorld = [(''/repo/refs/a.json'', refContent cycRef)]"
  by (simp add: cycWorld_def cycOps_def emptyWorld_def CreateEmptyRef_def CreateRefFromParent_def
      validate_examples exEnv_simps exEnv_refFile saveRef_def getRef_def cycRef_def Let_def
      asRef_simps)

section \<open>Creating a root under a name that is taken\<close>




section \<open>The ancestry loop\<close>

lemma loop_ancestors:
  "ancestors e w r ps \<Longrightarrow>
   buildLowerDirs_loop e w r ds = Some (ds @ map (\<lambda>p. layerPath e (LayerID p)) ps)"
proof (induction arbitrary: ds rule: ancestors.induct)
  case (root r e w)
  then show ?case by (subst buildLowerDirs_loop.simps) simp
next
  case (step r e w p ps)
  show ?case
    by (subst buildLowerDirs_loop.simps) (simp add: step)
qed

lemma ancestors_refs_only:
  "ancestors e w r ps \<Longrightarrow> files w' = files w \<Longrightarrow> ancestors e w' r ps"
  by (induction rule: ancestors.induct) (auto intro: ancestors.intros simp: getRef_def)

lemma ancestors_dev: "ancestors (exEnv t) exWorld devRef [baseRef]"
  by (rule ancestors.step)
    (simp_all add: devRef_def baseRef_def exWorld_refs [unfolded devRef_def baseRef_def]
      ancestors.root)

text \<open>
  On a set of refs that the parent links never leave, the loop returns from none of
  them: it has no other exit than an empty or unreadable parent.
\<close>

lemma loop_diverges:
  assumes closed: "\<And>r. r \<in> C \<Longrightarrow> Parent r \<noteq> [] \<and> (\<exists>p\<in>C. getRef e w (Parent r) = Some p)"
    and r: "r \<in> C"
  shows "buildLowerDirs_loop e w r ds = None"
proof -
  have "e0 = e \<and> w0 = w \<longrightarrow> r0 \<notin> C"
    if "buildLowerDirs_loop e0 w0 r0 ds0 = Some y0" for e0 w0 r0 ds0 y0
  proof (rule buildLowerDirs_loop.raw_induct
      [where P = "\<lambda>e1 w1 r1 ds1 y1. e1 = e \<and> w1 = w \<longrightarrow> r1 \<notin> C", OF _ that], goal_cases)
    case (1 f e1 w1 current ds1 y1)
    show ?case
    proof (intro impI notI)
      assume w: "e1 = e \<and> w1 = w" and c: "current \<in> C"
      from closed [OF c] obtain p where p: "Parent current \<noteq> []" "p \<in> C"
        "getRef e w (Parent current) = Some p" by blast
      with 1(2) w have "f e w p (ds1 @ [layerPath e (LayerID p)]) = Some y1" by simp
      from 1(1) [OF this] p show False by simp
    qed
  qed
  with r show ?thesis by (cases "buildLowerDirs_loop e w r ds") auto
qed

text \<open>
  The walk of the \<open>size\<close> command is total (its definition carries the termination
  proof), and on the ref that is its own parent it stops after one layer.
\<close>

lemma sizeChain_cycle: "sizeChain (exEnv 5) cycWorld cycRef {} [] = [LayerID cycRef]"
  by (simp add: sizeChain.simps getRef_def files_cycWorld exEnv_refFile asRef_simps cycRef_def)

lemma cycle_diverges_any_env:
  assumes "refFile e ''a'' = ''/repo/refs/a.json''"
  shows "buildLowerDirs e cycWorld cycRef = None"
proof -
  have g: "getRef e cycWorld ''a'' = Some cycRef"
    by (simp add: getRef_def files_cycWorld assms asRef_simps)
  have pc: "Parent cycRef = ''a''" by (simp add: cycRef_def)
  show ?thesis
    unfolding buildLowerDirs_def
    by (rule loop_diverges [where C = "{cycRef}"]) (simp_all add: pc g)
qed

lemma goEnv_refFile:
  "refFile (e\<lparr>repoPath := ''/repo'', pjoin := goJoin, resolve := goAbs ''/''\<rparr>) ''a'' =
     ''/repo/refs/a.json''"
  by (simp add: refFile_def refPath_def goJoin_def goClean_def cleanStep_def goAbs_def)

text \<open>
  C4, the code at a store it can be given: after \<open>create a\<close> and \<open>create a a\<close> the ref
  \<open>a\<close> is its own parent, and on it \<open>buildLowerDirs\<close> never returns, in any
  environment whose repository is \<open>/repo\<close> and whose paths are joined and resolved as
  Go does, nor does the \<open>Mount\<close> that calls it. The loop keeps no record of the layer
  identifiers it has seen.
\<close>

theorem buildLowerDirs_cycle_diverges:
  "getRef (e\<lparr>repoPath := ''/repo'', pjoin := goJoin, resolve := goAbs ''/''\<rparr>) cycWorld ''a'' =
     Some cycRef \<and>
   buildLowerDirs (e\<lparr>repoPath := ''/repo'', pjoin := goJoin, resolve := goAbs ''/''\<rparr>)
     cycWorld cycRef = None \<and>
   Mount (exEnv 5) cycWorld ''a'' ''/mnt/a'' = None"
proof -
  have g: "getRef (exEnv 5) w ''a'' = Some cycRef" if "files w = files cycWorld" for w
    using that by (simp add: getRef_def files_cycWorld exEnv_refFile asRef_simps)
  have pc: "Parent cycRef = ''a''" by (simp add: cycRef_def)
  have l: "buildLowerDirs_loop (exEnv 5) w cycRef ds = None"
    if "files w = files cycWorld" for w ds
    by (rule loop_diverges [where C = "{cycRef}"]) (simp_all add: pc g [OF that])
  have m: "\<not> isMounted (exEnv 5) ''/mnt/a''"
    by (simp add: isMounted_def exEnv_simps go_paths)
  have g': "getRef (e\<lparr>repoPath := ''/repo'', pjoin := goJoin, resolve := goAbs ''/''\<rparr>)
      cycWorld ''a'' = Some cycRef"
    by (simp only: getRef_def goEnv_refFile) (simp add: files_cycWorld asRef_simps)
  have b: "buildLowerDirs (e\<lparr>repoPath := ''/repo'', pjoin := goJoin, resolve := goAbs ''/''\<rparr>)
      cycWorld cycRef = None"
    by (rule cycle_diverges_any_env) (rule goEnv_refFile)
  have mt: "Mount (exEnv 5) cycWorld ''a'' ''/mnt/a'' = None"
    by (simp add: g l buildLowerDirs_def Mount_def exEnv_simps m)
  from g' b mt show ?thesis by blast
qed

section \<open>The session record of a mount\<close>

text \<open>
  C2, the code at an input it can be given: the kernel refuses the overlay mount and
  accepts the bind mount. \<open>Mount\<close> returns nil after the two mount calls, and the
  files are as they were: no session file is written, and \<open>IsMountedRef\<close> finds no
  session of \<open>dev\<close>.
\<close>

theorem Mount_bind_fallback_no_session:
  "map_option fst (Mount bindOnlyEnv exWorld ''dev'' ''/mnt/dev'') = Some None \<and>
   map_option (\<lambda>r. files (fst (snd r))) (Mount bindOnlyEnv exWorld ''dev'' ''/mnt/dev'') =
     Some (files exWorld) \<and>
   map_option (\<lambda>r. IsMountedRef bindOnlyEnv (fst (snd r)) ''dev'')
       (Mount bindOnlyEnv exWorld ''dev'' ''/mnt/dev'') = Some (Inr False) \<and>
   map_option (\<lambda>r. snd (snd r)) (Mount bindOnlyEnv exWorld ''dev'' ''/mnt/dev'') =
     Some [EvMount ''overlay'' ''/mnt/dev'' ''overlay'' 0
             ''lowerdir=/repo/layers/layer_1,upperdir=/repo/layers/layer_2,workdir=/repo/work/layer_2'',
           EvMount ''/repo/layers/layer_2'' ''/mnt/dev'' [] MS_BIND []]"
proof -
  have a: "ancestors bindOnlyEnv (exWorld\<lparr>dirs := ds\<rparr>) devRef [baseRef]" for ds
  proof -
    have "getRef bindOnlyEnv w n = getRef (exEnv 5) w n" for w n
      by (simp add: getRef_def refFile_def refPath_def bindOnlyEnv_def)
    then have "ancestors bindOnlyEnv exWorld devRef [baseRef]"
      using ancestors_dev [of 5]
      by (auto intro!: ancestors.intros elim!: ancestors.cases simp: devRef_def baseRef_def)
    then show ?thesis by (rule ancestors_refs_only) simp
  qed
  have b: "getRef bindOnlyEnv exWorld ''dev'' = Some devRef"
    using exWorld_refs(1) [of 5] by (simp add: getRef_def refFile_def refPath_def bindOnlyEnv_def)
  have c: "\<not> isMounted bindOnlyEnv ''/mnt/dev''"
    by (simp add: isMounted_def bindOnlyEnv_def exEnv_def go_paths)
  have d: "mkdirAll bindOnlyEnv p = None" "readDir bindOnlyEnv p = None" for p
    by (simp_all add: bindOnlyEnv_def exEnv_def)
  have f: "sysMount bindOnlyEnv src tgt fstype flags data =
             (if fstype = ''overlay'' then Some 19 else None)" for src tgt fstype flags data
    by (simp add: bindOnlyEnv_def exEnv_def)
  have g: "layerPath bindOnlyEnv (LayerID devRef) = ''/repo/layers/layer_2''"
    "layerPath bindOnlyEnv (LayerID baseRef) = ''/repo/layers/layer_1''"
    "workPath bindOnlyEnv (LayerID devRef) = ''/repo/work/layer_2''"
    "resolve bindOnlyEnv (pjoin bindOnlyEnv [repoPath bindOnlyEnv, ''mounts'']) = ''/repo/mounts''"
    by (simp_all add: bindOnlyEnv_def exEnv_def layerPath_def workPath_def devRef_def baseRef_def
        go_paths)
  have h: "readDirFiles (exWorld\<lparr>dirs := ds\<rparr>) ''/repo/mounts'' = []" for ds
    by (simp add: readDirFiles_def exWorld_def entryName_def dirPrefix_def)
  show ?thesis
    by (simp add: Mount_def b c d f g h buildLowerDirs_def loop_ancestors [OF a] Let_def
        overlayOpts_def IsMountedRef_def)
qed

section \<open>Acyclic stores\<close>










text \<open>
  Why the amended statement asks for a store without dangling parents: \<open>b\<close> names the
  absent \<open>a\<close>, the store is acyclic, \<open>a\<close> is a new name, and \<open>create a b\<close> closes the
  cycle.
\<close>

lemma dangling_parent_cycle:
  "acyclicStore (exEnv 0) danglingWorld \<and> freshOps danglingOps danglingWorld \<and>
   \<not> closedStore (exEnv 0) danglingWorld \<and>
   \<not> acyclicStore (exEnv 0) (runOps danglingOps danglingWorld)"
proof -
  have r: "parentRel (exEnv 0) danglingWorld = {(''/repo/refs/b.json'', ''/repo/refs/a.json'')}"
    by (auto simp: parentRel_def danglingWorld_def asRef_simps exEnv_refFile split: if_splits)
  have a: "acyclicStore (exEnv 0) danglingWorld"
    using acyclic_insert [of "''/repo/refs/b.json''" "''/repo/refs/a.json''" "{}"]
    by (simp add: acyclicStore_def r acyclic_def)
  have f: "freshOps danglingOps danglingWorld"
    by (simp add: danglingOps_def getRef_def danglingWorld_def exEnv_refFile)
  have c: "\<not> closedStore (exEnv 0) danglingWorld"
    by (simp add: closedStore_def getRef_def danglingWorld_def asRef_simps exEnv_refFile)
  have g: "map_of (files (runOps danglingOps danglingWorld)) ''/repo/refs/a.json'' =
      Some (refContent \<lparr>Name = ''a'', Parent = ''b'', LayerID = generateLayerID (exEnv 7),
            CreatedAt = 8, Metadata = []\<rparr>)"
    "map_of (files (runOps danglingOps danglingWorld)) ''/repo/refs/b.json'' =
      Some (refContent \<lparr>Name = ''b'', Parent = ''a'', LayerID = ''layer_3'', CreatedAt = 3,
            Metadata = []\<rparr>)"
    by (simp_all add: danglingOps_def danglingWorld_def CreateRefFromParent_def
        validate_examples exEnv_simps exEnv_refFile saveRef_def getRef_def Let_def asRef_simps)
  have "(''/repo/refs/a.json'', ''/repo/refs/b.json'') \<in>
      parentRel (exEnv 0) (runOps danglingOps danglingWorld)"
    "(''/repo/refs/b.json'', ''/repo/refs/a.json'') \<in>
      parentRel (exEnv 0) (runOps danglingOps danglingWorld)"
    by (simp_all add: parentRel_def g asRef_simps exEnv_refFile)
  then have "(''/repo/refs/a.json'', ''/repo/refs/a.json'') \<in>
      (parentRel (exEnv 0) (runOps danglingOps danglingWorld))\<^sup>+"
    by (rule trancl_into_trancl2 [OF _ r_into_trancl])
  then have "\<not> acyclicStore (exEnv 0) (runOps danglingOps danglingWorld)"
    unfolding acyclicStore_def by blast
  with a f c show ?thesis by simp
qed

text \<open>
  A parent given with path syntax is read like any other: \<open>create x ./base\<close> stores \<open>x\<close>
  with the parent \<open>./base\<close>, after which \<open>x\<close> is no new name, and \<open>create x x\<close> is not
  among the sequences of the amended statement.
\<close>

lemma path_parent_resolves:
  "getRef (exEnv 2) (applyOp (exEnv 1) exWorld (CreateChild ''x'' ''./base'')) ''x'' =
     Some \<lparr>Name = ''x'', Parent = ''./base'', LayerID = generateLayerID (exEnv 1),
           CreatedAt = 2, Metadata = [(''os'', ''linux'')]\<rparr> \<and>
   \<not> freshOps [(exEnv 1, CreateChild ''x'' ''./base''), (exEnv 2, CreateChild ''x'' ''x'')] exWorld"
proof -
  have v: "validateRefName ''x'' = None"
    by (simp add: validateRefName_def forbiddenChars_def)
  have x: "refFile (exEnv t) ''x'' = ''/repo/refs/x.json''" for t
    by (simp add: refFile_def refPath_def exEnv_simps goJoin_def goClean_def cleanStep_def
        goAbs_def)
  have w1: "files (applyOp (exEnv 1) exWorld (CreateChild ''x'' ''./base'')) =
      files exWorld @
      [(''/repo/refs/x.json'',
        refContent \<lparr>Name = ''x'', Parent = ''./base'', LayerID = generateLayerID (exEnv 1),
                     CreatedAt = 2, Metadata = [(''os'', ''linux'')]\<rparr>)]"
    by (simp add: CreateRefFromParent_def v exWorld_refs exEnv_simps saveRef_def Let_def x
        baseRef_def)
       (simp add: exWorld_def)
  have g: "getRef (exEnv t) (applyOp (exEnv 1) exWorld (CreateChild ''x'' ''./base'')) ''x'' =
     Some \<lparr>Name = ''x'', Parent = ''./base'', LayerID = generateLayerID (exEnv 1),
           CreatedAt = 2, Metadata = [(''os'', ''linux'')]\<rparr>" for t
    unfolding getRef_def w1 by (simp add: x asRef_simps exWorld_def)
  have "getRef (exEnv 1) exWorld ''x'' = None"
    by (simp add: getRef_def x exWorld_def)
  with g show ?thesis by simp
qed



section \<open>The trace of the retry loop\<close>

lemma beforeAttempt_no_attempt: "filter isAttempt (beforeAttempt e p force i) = []"
  by (auto simp: beforeAttempt_def killProcessesUsingMount_def filter_empty_conv
      split: option.splits)

lemma afterAttempt_skip:
  "filter isAttempt xs = [] \<Longrightarrow> afterAttempt (Suc n) (xs @ ys) = afterAttempt (Suc n) ys"
  by (induction xs) (auto split: if_splits)

lemma attempts_append: "attempts (xs @ ys) = attempts xs + attempts ys"
  by (simp add: attempts_def)

lemma attempts_before: "attempts (beforeAttempt e p force i) = 0"
  by (simp add: attempts_def beforeAttempt_no_attempt)

lemma attempts_simps:
  "attempts [] = 0" "attempts (EvUnmount p 0 # tr) = Suc (attempts tr)"
  "attempts (EvUnmount p MNT_DETACH # tr) = attempts tr" "attempts (EvSync # tr) = attempts tr"
  by (simp_all add: attempts_def MNT_DETACH_def)

lemma loopTrace_simps:
  "loopTrace e w mp ap force m i le =
    (if i < m then
       beforeAttempt e ap force i @ [EvUnmount mp 0] @
       (case sysUnmount e i of
          None \<Rightarrow> []
        | Some err \<Rightarrow>
           (if i = m - 1 then
              (case sysDetach e of
                 None \<Rightarrow> [EvUnmount mp MNT_DETACH]
               | Some err2 \<Rightarrow>
                   EvUnmount mp MNT_DETACH # loopTrace e w mp ap force m (i + 1) (Some err))
            else loopTrace e w mp ap force m (i + 1) (Some err)))
     else [])"
  unfolding loopTrace_def
  by (subst unmountLoop.simps) (simp add: Let_def split: option.splits prod.splits)

lemma loopTrace_end: "m \<le> i \<Longrightarrow> loopTrace e w mp ap force m i le = []"
  by (subst loopTrace_simps) simp

lemma loopTrace_step:
  assumes "i < m"
  shows "\<exists>rest. loopTrace e w mp ap force m i le =
            beforeAttempt e ap force i @ EvUnmount mp 0 # rest \<and>
          (rest = [] \<or> rest = [EvUnmount mp MNT_DETACH] \<or>
           (\<exists>le'. rest = loopTrace e w mp ap force m (i + 1) le' \<and> i \<noteq> m - 1))"
proof (cases "sysUnmount e i")
  case None
  then show ?thesis using assms by (subst loopTrace_simps) simp
next
  case (Some err)
  show ?thesis
  proof (cases "i = m - 1")
    case True
    then have "loopTrace e w mp ap force m (i + 1) le' = []" for le'
      using assms by (simp add: loopTrace_end)
    then show ?thesis using assms Some True
      by (subst loopTrace_simps) (simp split: option.splits)
  next
    case False
    then show ?thesis using assms Some
      by (subst loopTrace_simps) auto
  qed
qed

lemma loop_attempts: "attempts (loopTrace e w mp ap force m i le) \<le> m - i"
proof (induction "m - i" arbitrary: i le)
  case 0
  then show ?case by (simp add: loopTrace_end attempts_simps)
next
  case (Suc k)
  then have lt: "i < m" and k: "k = m - (i + 1)" by simp_all
  have ih: "attempts (loopTrace e w mp ap force m (i + 1) le') \<le> m - (i + 1)" for le'
    using Suc(1) [OF k] .
  from loopTrace_step [OF lt, of e w mp ap force le] obtain rest where
    tr: "loopTrace e w mp ap force m i le = beforeAttempt e ap force i @ EvUnmount mp 0 # rest"
    and rest: "rest = [] \<or> rest = [EvUnmount mp MNT_DETACH] \<or>
           (\<exists>le'. rest = loopTrace e w mp ap force m (i + 1) le' \<and> i \<noteq> m - 1)"
    by blast
  from rest have "attempts rest \<le> m - (i + 1)"
    using ih by (auto simp: attempts_simps)
  with lt show ?case
    by (simp add: tr attempts_append attempts_before attempts_simps)
qed

lemma loop_backoff:
  "1 \<le> j \<Longrightarrow> j < attempts (loopTrace e w mp ap force m i le) \<Longrightarrow>
   \<exists>rest. afterAttempt j (loopTrace e w mp ap force m i le) =
      EvSleep (100 * (i + j + 1)) # EvSync # rest"
proof (induction j arbitrary: i le)
  case 0
  then show ?case by simp
next
  case (Suc j)
  have lt: "i < m"
  proof (rule ccontr)
    assume "\<not> i < m"
    then have "loopTrace e w mp ap force m i le = []" by (simp add: loopTrace_end)
    with Suc.prems show False by (simp add: attempts_simps)
  qed
  from loopTrace_step [OF lt, of e w mp ap force le] obtain rest where
    tr: "loopTrace e w mp ap force m i le = beforeAttempt e ap force i @ EvUnmount mp 0 # rest"
    and rest: "rest = [] \<or> rest = [EvUnmount mp MNT_DETACH] \<or>
           (\<exists>le'. rest = loopTrace e w mp ap force m (i + 1) le' \<and> i \<noteq> m - 1)"
    by blast
  from Suc.prems(2) have ar: "Suc j < Suc (attempts rest)"
    by (simp add: tr attempts_append attempts_before attempts_simps)
  then have "attempts rest \<noteq> 0" by simp
  with rest obtain le' where r: "rest = loopTrace e w mp ap force m (i + 1) le'"
    by (auto simp: attempts_simps)
  have aa: "afterAttempt (Suc j) (loopTrace e w mp ap force m i le) = afterAttempt j rest"
    by (simp add: tr afterAttempt_skip [OF beforeAttempt_no_attempt])
  show ?case
  proof (cases j)
    case 0
    have "i + 1 < m"
    proof (rule ccontr)
      assume "\<not> i + 1 < m"
      then have "rest = []" by (simp add: r loopTrace_end)
      with ar show False by (simp add: attempts_simps)
    qed
    from loopTrace_step [OF this, of e w mp ap force le'] obtain rest' where
      "rest = beforeAttempt e ap force (i + 1) @ EvUnmount mp 0 # rest'"
      unfolding r by blast
    then show ?thesis using 0 aa by (simp add: beforeAttempt_def)
  next
    case (Suc j')
    from ar have "j < attempts (loopTrace e w mp ap force m (i + 1) le')" by (simp add: r)
    from Suc.IH [OF _ this] Suc aa show ?thesis by (simp add: r)
  qed
qed

lemma unmount_trace:
  "snd (snd (unmountWithOptions e w mp force)) =
     (if \<not> isMounted e mp then []
      else EvSync # loopTrace e w mp (case pabs e mp of None \<Rightarrow> mp | Some a \<Rightarrow> a) force
                      (if force then 5 else 3) 0 None)"
  by (simp add: unmountWithOptions_def loopTrace_def Let_def split: prod.splits)

lemma unmount_result:
  "fst (unmountWithOptions e w mp force) =
     (if \<not> isMounted e mp then Some NotMounted
      else fst (unmountLoop e w mp (case pabs e mp of None \<Rightarrow> mp | Some a \<Rightarrow> a) force
                  (if force then 5 else 3) 0 None))"
  "fst (snd (unmountWithOptions e w mp force)) =
     (if \<not> isMounted e mp then w
      else fst (snd (unmountLoop e w mp (case pabs e mp of None \<Rightarrow> mp | Some a \<Rightarrow> a) force
                  (if force then 5 else 3) 0 None)))"
  by (simp_all add: unmountWithOptions_def Let_def split: prod.splits)

lemma busy_trace:
  "snd (snd (unmountWithOptions busyEnv mountedWorld ''/mnt/dev'' False)) =
     [EvSync, EvUnmount ''/mnt/dev'' 0,
      EvSleep 200, EvSync, EvUnmount ''/mnt/dev'' 0,
      EvSleep 300, EvSync, EvUnmount ''/mnt/dev'' 0, EvUnmount ''/mnt/dev'' MNT_DETACH]"
  by (simp add: unmount_trace mounted_dev busyEnv_simps loopTrace_simps [of _ _ _ _ _ 3]
      beforeAttempt_def go_paths)

text \<open>
  C7: an unmount makes at most 3 plain unmount calls without force and at most 5 with
  force, and whenever there is a k-th attempt with k at least 2 (attempts counted from
  1, so k is the loop variable plus one), what follows the attempt before it is a
  sleep of 100 * k milliseconds and a sync.
\<close>

theorem unmount_attempts_backoff:
  "attempts (snd (snd (unmountWithOptions e w mp force))) \<le> (if force then 5 else 3) \<and>
   (\<forall>k. 2 \<le> k \<and> k \<le> attempts (snd (snd (unmountWithOptions e w mp force))) \<longrightarrow>
      (\<exists>rest. afterAttempt (k - 1) (snd (snd (unmountWithOptions e w mp force))) =
         EvSleep (100 * k) # EvSync # rest))"
proof (cases "isMounted e mp")
  case False
  then show ?thesis by (simp add: unmount_trace attempts_simps)
next
  case True
  let ?ap = "case pabs e mp of None \<Rightarrow> mp | Some a \<Rightarrow> a"
  let ?m = "if force then 5 else 3 :: nat"
  let ?tr = "loopTrace e w mp ?ap force ?m 0 None"
  have tr: "snd (snd (unmountWithOptions e w mp force)) = EvSync # ?tr"
    using True by (simp add: unmount_trace)
  have a: "attempts (EvSync # ?tr) \<le> ?m"
    using loop_attempts [of e w mp ?ap force ?m 0 None] by (simp add: attempts_simps)
  have b: "\<exists>rest. afterAttempt (k - 1) (EvSync # ?tr) = EvSleep (100 * k) # EvSync # rest"
    if "2 \<le> k" "k \<le> attempts (EvSync # ?tr)" for k
  proof -
    from that obtain j where j: "k = Suc j" "1 \<le> j" "j < attempts ?tr"
      by (cases k) (auto simp: attempts_simps)
    from loop_backoff [OF j(2,3)] j show ?thesis by (cases j) auto
  qed
  show ?thesis unfolding tr using a b by blast
qed

text \<open>
  C7 at a busy mount without force: three attempts, 200 ms before the second and
  300 ms before the third.
\<close>

theorem unmount_attempts_backoff_witness:
  "attempts (snd (snd (unmountWithOptions busyEnv mountedWorld ''/mnt/dev'' False))) = 3 \<and>
   (\<exists>rest. afterAttempt (2 - 1)
              (snd (snd (unmountWithOptions busyEnv mountedWorld ''/mnt/dev'' False))) =
      EvSleep (100 * 2) # EvSync # rest) \<and>
   (\<exists>rest. afterAttempt (3 - 1)
              (snd (snd (unmountWithOptions busyEnv mountedWorld ''/mnt/dev'' False))) =
      EvSleep (100 * 3) # EvSync # rest)"
proof -
  let ?tr = "snd (snd (unmountWithOptions busyEnv mountedWorld ''/mnt/dev'' False))"
  have a: "attempts ?tr = 3"
    by (simp add: busy_trace attempts_def MNT_DETACH_def)
  from unmount_attempts_backoff [of busyEnv mountedWorld "''/mnt/dev''" False]
  have all: "2 \<le> k \<and> k \<le> attempts ?tr \<longrightarrow>
          (\<exists>rest. afterAttempt (k - 1) ?tr = EvSleep (100 * k) # EvSync # rest)" for k
    by blast
  from all [of 2] all [of 3] a show ?thesis by simp
qed

section \<open>Killing processes\<close>

lemma beforeAttempt_noforce: "\<not> list_ex isExec (beforeAttempt e ap False i)"
  by (simp add: beforeAttempt_def)

lemma list_ex_append_iff: "list_ex P (xs @ ys) = (list_ex P xs \<or> list_ex P ys)"
  by (auto simp: list_ex_iff)

lemma loop_noforce_no_exec: "\<not> list_ex isExec (loopTrace e w mp ap False m i le)"
proof (induction "m - i" arbitrary: i le)
  case 0
  then show ?case by (simp add: loopTrace_end)
next
  case (Suc k)
  then have lt: "i < m" and k: "k = m - (i + 1)" by simp_all
  have ih: "\<not> list_ex isExec (loopTrace e w mp ap False m (i + 1) le')" for le'
    using Suc(1) [OF k] .
  from loopTrace_step [OF lt, of e w mp ap False le] obtain rest where
    tr: "loopTrace e w mp ap False m i le = beforeAttempt e ap False i @ EvUnmount mp 0 # rest"
    and rest: "rest = [] \<or> rest = [EvUnmount mp MNT_DETACH] \<or>
           (\<exists>le'. rest = loopTrace e w mp ap False m (i + 1) le' \<and> i \<noteq> m - 1)"
    by blast
  from rest ih have "\<not> list_ex isExec rest" by auto
  then show ?case
    using beforeAttempt_noforce [of e ap i] by (simp add: tr list_ex_append_iff)
qed

lemma loop_first_attempt:
  "0 < m \<Longrightarrow> takeWhile (\<lambda>ev. \<not> isAttempt ev) (loopTrace e w mp ap force m 0 le) = []"
  using loopTrace_step [of 0 m e w mp ap force le] by (auto simp: beforeAttempt_def)

text \<open>
  C8: without force an unmount runs no external command at all (\<open>fuser -km\<close>, \<open>lsof\<close>
  and \<open>kill\<close> are the only ones the program has), whatever the unmount calls return;
  with or without force, none is run before the first unmount attempt has been made.
\<close>

theorem unmount_kill_only_force:
  "(\<not> force \<longrightarrow> \<not> list_ex isExec (snd (snd (unmountWithOptions e w mp force)))) \<and>
   \<not> list_ex isExec
       (takeWhile (\<lambda>ev. \<not> isAttempt ev) (snd (snd (unmountWithOptions e w mp force))))"
  using loop_noforce_no_exec [of e w mp _ 3 0 None] loop_first_attempt [of _ e w mp _ force None]
  by (simp add: unmount_trace)

lemma busy_force_kills:
  "list_ex isExec (snd (snd (unmountWithOptions busyEnv mountedWorld ''/mnt/dev'' True)))"
  by (simp add: unmount_trace mounted_dev busyEnv_simps loopTrace_simps [of _ _ _ _ _ 5]
      beforeAttempt_def killProcessesUsingMount_def go_paths)

text \<open>
  C8 at a busy mount: without force no command is run; with force commands are run,
  none of them before the first attempt.
\<close>

theorem unmount_kill_only_force_witness:
  "\<not> False \<and>
   \<not> list_ex isExec (snd (snd (unmountWithOptions busyEnv mountedWorld ''/mnt/dev'' False))) \<and>
   list_ex isExec (snd (snd (unmountWithOptions busyEnv mountedWorld ''/mnt/dev'' True))) \<and>
   \<not> list_ex isExec
       (takeWhile (\<lambda>ev. \<not> isAttempt ev)
          (snd (snd (unmountWithOptions busyEnv mountedWorld ''/mnt/dev'' True))))"
  using unmount_kill_only_force [of False busyEnv mountedWorld "''/mnt/dev''"]
    unmount_kill_only_force [of True busyEnv mountedWorld "''/mnt/dev''"] busy_force_kills
  by simp

section \<open>The outcome of the retry loop\<close>

lemma unmountLoop_end:
  "\<not> i < m \<Longrightarrow> unmountLoop e w mp ap force m i le = (Some (UnmountFailed le), w, [])"
  by (simp add: unmountLoop.simps [of e w mp ap force m i le])

lemma unmountLoop_success:
  "i < m \<Longrightarrow> sysUnmount e i = None \<Longrightarrow>
   fst (unmountLoop e w mp ap force m i le) = None \<and>
   fst (snd (unmountLoop e w mp ap force m i le)) = removeMountInfo e w mp"
  by (simp add: unmountLoop.simps [of e w mp ap force m i le] Let_def)

lemma unmountLoop_detach:
  "i < m \<Longrightarrow> sysUnmount e i = Some err \<Longrightarrow> i = m - 1 \<Longrightarrow> sysDetach e = None \<Longrightarrow>
   fst (unmountLoop e w mp ap force m i le) = None \<and>
   fst (snd (unmountLoop e w mp ap force m i le)) = removeMountInfo e w mp"
  by (unfold unmountLoop.simps [of e w mp ap force m i le]) (simp add: Let_def)

lemma unmountLoop_next:
  "i < m \<Longrightarrow> sysUnmount e i = Some err \<Longrightarrow> \<not> (i = m - 1 \<and> sysDetach e = None) \<Longrightarrow>
   fst (unmountLoop e w mp ap force m i le) =
     fst (unmountLoop e w mp ap force m (i + 1) (Some err)) \<and>
   fst (snd (unmountLoop e w mp ap force m i le)) =
     fst (snd (unmountLoop e w mp ap force m (i + 1) (Some err)))"
  by (cases "sysDetach e")
    (simp_all add: unmountLoop.simps [of e w mp ap force m i le] Let_def split: prod.splits)

lemma loop_fail:
  assumes "\<forall>k. i \<le> k \<and> k < m \<longrightarrow> sysUnmount e k \<noteq> None" "sysDetach e \<noteq> None"
  shows "fst (unmountLoop e w mp ap force m i le) =
           Some (UnmountFailed (if i < m then sysUnmount e (m - 1) else le)) \<and>
         fst (snd (unmountLoop e w mp ap force m i le)) = w"
  using assms
proof (induction "m - i" arbitrary: i le)
  case 0
  then show ?case by (simp add: unmountLoop_end)
next
  case (Suc k)
  then have lt: "i < m" and k: "k = m - (i + 1)" by simp_all
  from Suc.prems lt obtain err where err: "sysUnmount e i = Some err" by auto
  have ih: "fst (unmountLoop e w mp ap force m (i + 1) (Some err)) =
           Some (UnmountFailed (if i + 1 < m then sysUnmount e (m - 1) else Some err)) \<and>
         fst (snd (unmountLoop e w mp ap force m (i + 1) (Some err))) = w"
    using Suc(1) [OF k _ Suc.prems(2)] Suc.prems(1) by simp
  have nx: "\<not> (i = m - 1 \<and> sysDetach e = None)" using Suc.prems(2) by simp
  show ?case
  proof (cases "i = m - 1")
    case True
    with lt have "\<not> i + 1 < m" by simp
    with ih True err show ?thesis
      using unmountLoop_next [OF lt err nx, of w mp ap force le] lt by simp
  next
    case False
    with lt have "i + 1 < m" by simp
    with ih show ?thesis
      using unmountLoop_next [OF lt err nx, of w mp ap force le] lt by simp
  qed
qed

lemma loop_outcome:
  "(fst (unmountLoop e w mp ap force m i le) \<noteq> None \<longrightarrow>
      fst (snd (unmountLoop e w mp ap force m i le)) = w) \<and>
   (fst (unmountLoop e w mp ap force m i le) = None \<longrightarrow>
      ((\<exists>k<m. sysUnmount e k = None) \<or> sysDetach e = None) \<and>
      fst (snd (unmountLoop e w mp ap force m i le)) = removeMountInfo e w mp)"
proof (induction "m - i" arbitrary: i le)
  case 0
  then show ?case by (simp add: unmountLoop_end)
next
  case (Suc k)
  then have lt: "i < m" and k: "k = m - (i + 1)" by simp_all
  note ih = Suc(1) [OF k]
  show ?case
  proof (cases "sysUnmount e i")
    case None
    with lt unmountLoop_success [OF lt None, of w mp ap force le] show ?thesis by auto
  next
    case (Some err)
    show ?thesis
    proof (cases "i = m - 1 \<and> sysDetach e = None")
      case True
      with unmountLoop_detach [OF lt Some, of w mp ap force le] show ?thesis by simp
    next
      case False
      from unmountLoop_next [OF lt Some False, of w mp ap force le] ih [of "Some err"]
      show ?thesis by simp
    qed
  qed
qed

text \<open>
  C9, the claim as written fails on the error that is wrapped: the three plain
  unmounts fail with 16 and the detaching unmount, the last call made, fails with 22;
  the error returned wraps 16. \<open>lastErr\<close> is assigned from the plain unmount only.
\<close>

theorem unmount_wraps_plain_error_not_detach:
  "isMounted busyEnv ''/mnt/dev'' \<and>
   sysUnmount busyEnv 0 = Some 16 \<and> sysUnmount busyEnv 1 = Some 16 \<and>
   sysUnmount busyEnv 2 = Some 16 \<and> sysDetach busyEnv = Some 22 \<and>
   fst (unmountWithOptions busyEnv mountedWorld ''/mnt/dev'' False) =
     Some (UnmountFailed (Some 16)) \<and>
   fst (unmountWithOptions busyEnv mountedWorld ''/mnt/dev'' False) \<noteq>
     Some (UnmountFailed (sysDetach busyEnv))"
proof -
  have "fst (unmountLoop busyEnv mountedWorld ''/mnt/dev'' ''/mnt/dev'' False 3 0 None) =
      Some (UnmountFailed (Some 16))"
    using loop_fail [of 0 3 busyEnv mountedWorld "''/mnt/dev''" "''/mnt/dev''" False None]
    by (simp add: busyEnv_simps)
  then show ?thesis
    by (simp add: unmount_result mounted_dev busyEnv_simps go_paths)
qed

text \<open>
  C9, as amended: when the mount point is mounted and every plain unmount and the
  detaching unmount fail, \<open>unmountWithOptions\<close> returns \<open>UnmountFailed\<close> wrapping the
  error of the last plain unmount (the error of the detaching unmount is dropped) and
  leaves the store, the session record with it, as it was; and whenever the store is
  changed, the call returned nil and a plain or the detaching unmount succeeded.
\<close>

theorem unmount_failure_keeps_session:
  "(isMounted e mp \<and> (\<forall>i<(if force then 5 else 3). sysUnmount e i \<noteq> None) \<and>
      sysDetach e \<noteq> None \<longrightarrow>
      fst (unmountWithOptions e w mp force) =
        Some (UnmountFailed (sysUnmount e ((if force then 5 else 3) - 1))) \<and>
      fst (snd (unmountWithOptions e w mp force)) = w) \<and>
   (fst (snd (unmountWithOptions e w mp force)) \<noteq> w \<longrightarrow>
      fst (unmountWithOptions e w mp force) = None \<and>
      ((\<exists>i<(if force then 5 else 3). sysUnmount e i = None) \<or> sysDetach e = None))"
proof -
  let ?ap = "case pabs e mp of None \<Rightarrow> mp | Some a \<Rightarrow> a"
  let ?m = "if force then 5 else 3 :: nat"
  let ?l = "unmountLoop e w mp ?ap force ?m 0 None"
  note r = unmount_result [of e w mp force]
  have m: "0 < ?m" by simp
  have a: "fst ?l = Some (UnmountFailed (sysUnmount e (?m - 1))) \<and> fst (snd ?l) = w"
    if "\<forall>i<?m. sysUnmount e i \<noteq> None" "sysDetach e \<noteq> None"
    using loop_fail [of 0 ?m e w mp ?ap force None] that m by (simp del: One_nat_def)
  have b: "fst ?l = None \<and> ((\<exists>i<?m. sysUnmount e i = None) \<or> sysDetach e = None)"
    if "fst (snd ?l) \<noteq> w"
    using loop_outcome [of e w mp ?ap force ?m 0 None] that by (cases "fst ?l") auto
  show ?thesis
    unfolding r using a b by (auto split: if_splits)
qed

text \<open>
  C9, the amended statement at a busy mount (nothing succeeds, the store is kept) and
  at a mount whose first unmount succeeds (the session record goes).
\<close>

theorem unmount_failure_keeps_session_witness:
  "isMounted busyEnv ''/mnt/dev'' \<and> sysUnmount busyEnv 0 = Some 16 \<and>
   sysUnmount busyEnv 1 = Some 16 \<and> sysUnmount busyEnv 2 = Some 16 \<and>
   sysDetach busyEnv = Some 22 \<and>
   fst (unmountWithOptions busyEnv mountedWorld ''/mnt/dev'' False) =
     Some (UnmountFailed (Some 16)) \<and>
   fst (snd (unmountWithOptions busyEnv mountedWorld ''/mnt/dev'' False)) = mountedWorld \<and>
   fst (snd (unmountWithOptions mountedEnv mountedWorld ''/mnt/dev'' False)) \<noteq> mountedWorld \<and>
   fst (unmountWithOptions mountedEnv mountedWorld ''/mnt/dev'' False) = None \<and>
   sysUnmount mountedEnv 0 = None"
proof -
  have a: "isMounted busyEnv ''/mnt/dev'' \<and> (\<forall>i<3. sysUnmount busyEnv i \<noteq> None) \<and>
      sysDetach busyEnv \<noteq> None"
    by (simp add: mounted_dev busyEnv_simps)
  have b: "fst (snd (unmountWithOptions mountedEnv mountedWorld ''/mnt/dev'' False)) \<noteq>
      mountedWorld"
  proof -
    have "removeMountInfo mountedEnv mountedWorld ''/mnt/dev'' \<noteq> mountedWorld"
      by (simp add: removeMountInfo_def mountedEnv_simps mountedWorld_def exWorld_def
          world.equality)
    then show ?thesis
      using unmountLoop_success
        [of 0 3 mountedEnv mountedWorld "''/mnt/dev''" "''/mnt/dev''" False None]
      by (simp add: unmount_result mounted_dev mountedEnv_simps go_paths)
  qed
  from a b unmount_failure_keeps_session [of busyEnv "''/mnt/dev''" False mountedWorld]
    unmount_failure_keeps_session [of mountedEnv "''/mnt/dev''" False mountedWorld]
  show ?thesis by (simp add: busyEnv_simps mountedEnv_simps)
qed

section \<open>The layers of an overlay mount\<close>




section \<open>The guards of a deletion\<close>

text \<open>
  What the guards of \<open>DeleteRef name false\<close> do, in the order they are made, each
  returning the store as it was: no ref can be read at the path of the name; a ref
  that \<open>ListRefs\<close> lists has the name, as a string, for its parent; no such ref, and
  a session file of \<open>mounts/\<close> has the name, as a string, for its key \<open>ref\<close>. The
  text of the mount table has no part in the result.
\<close>

lemma procMounts_frame:
  "getRef (e\<lparr>procMounts := pm\<rparr>) w name = getRef e w name"
  "HasChildren (e\<lparr>procMounts := pm\<rparr>) w name = HasChildren e w name"
  "IsMountedRef (e\<lparr>procMounts := pm\<rparr>) w name = IsMountedRef e w name"
  "osRemoveRef (e\<lparr>procMounts := pm\<rparr>) w name = osRemoveRef e w name"
  "osRemoveAll (e\<lparr>procMounts := pm\<rparr>) w p = osRemoveAll e w p"
  "layerPath (e\<lparr>procMounts := pm\<rparr>) l = layerPath e l"
  "workPath (e\<lparr>procMounts := pm\<rparr>) l = workPath e l"
  by (simp_all add: getRef_def refFile_def HasChildren_def ListRefs_def IsMountedRef_def
      osRemoveRef_def osRemoveAll_def refPath_def layerPath_def workPath_def
      cong: option.case_cong)

lemma DeleteRef_guards:
  "(getRef e w name = None \<longrightarrow> DeleteRef e w name False = (Some RefNotFound, w)) \<and>
   (getRef e w name \<noteq> None \<and> HasChildren e w name = Inr True \<longrightarrow>
      DeleteRef e w name False = (Some HasChildrenErr, w)) \<and>
   (getRef e w name \<noteq> None \<and> HasChildren e w name = Inr False \<and>
    IsMountedRef e w name = Inr True \<longrightarrow>
      DeleteRef e w name False = (Some RefMounted, w)) \<and>
   DeleteRef (e\<lparr>procMounts := pm\<rparr>) w name force = DeleteRef e w name force"
proof (intro conjI impI)
  show "DeleteRef (e\<lparr>procMounts := pm\<rparr>) w name force = DeleteRef e w name force"
    unfolding DeleteRef_def procMounts_frame ..
qed (auto simp: DeleteRef_def)

lemma exWorld_listing:
  "readDirFiles exWorld ''/repo/refs'' =
     [(''base.json'', refContent baseRef), (''dev.json'', refContent devRef)]"
  "readDirFiles exWorld ''/repo/mounts'' = []"
  by (simp_all add: readDirFiles_def exWorld_def entryName_def dirPrefix_def)

lemma exWorld_children:
  "HasChildren (exEnv t) exWorld ''base'' = Inr True"
  "HasChildren (exEnv t) exWorld ''./base'' = Inr False"
  "IsMountedRef (exEnv t) exWorld ''./base'' = Inr False"
  by (simp_all add: HasChildren_def ListRefs_def IsMountedRef_def exEnv_simps go_paths
      exWorld_listing asRef_simps suffix_def devRef_def baseRef_def)

text \<open>
  C6, the code at an input it can be given: \<open>gotree <repo> rm ./base\<close> on the store
  that holds \<open>base\<close> and its child \<open>dev\<close>. Under the name \<open>base\<close> the deletion is
  refused with \<open>HasChildrenErr\<close>. Under \<open>./base\<close>, which \<open>filepath.Join\<close> takes to the same
  file, \<open>getRef\<close> reads \<open>base\<close>, no ref has the string \<open>./base\<close> for its parent, and
  \<open>DeleteRef\<close> returns nil: the ref file and the layer directory of \<open>base\<close> are gone
  and \<open>dev\<close> still names \<open>base\<close>. \<open>DeleteRef\<close> does not validate the name, as
  \<open>CreateEmptyRef\<close> and \<open>CreateRefFromParent\<close> do.
\<close>

theorem DeleteRef_path_name_bypasses_guards:
  "validateRefName ''./base'' = Some InvalidName \<and>
   getRef (exEnv 5) exWorld ''dev'' = Some devRef \<and> Parent devRef = ''base'' \<and>
   DeleteRef (exEnv 5) exWorld ''base'' False = (Some HasChildrenErr, exWorld) \<and>
   DeleteRef (exEnv 5) exWorld ''./base'' False =
     (None, \<lparr>files = [(''/repo/refs/dev.json'', refContent devRef)],
             dirs = {''/repo/layers/layer_2''}\<rparr>)"
proof -
  have v: "validateRefName ''./base'' = Some InvalidName"
    by (simp add: validateRefName_def forbiddenChars_def)
  have a: "DeleteRef (exEnv 5) exWorld ''base'' False = (Some HasChildrenErr, exWorld)"
    by (simp add: DeleteRef_def exWorld_refs exWorld_children)
  have r1: "osRemoveRef (exEnv 5) exWorld ''./base'' =
      (None, exWorld\<lparr>files := [(''/repo/refs/dev.json'', refContent devRef)]\<rparr>)"
    by (simp add: osRemoveRef_def exEnv_simps exEnv_refFile exWorld_def AList.delete_eq)
  have r2: "osRemoveAll (exEnv 5)
        (exWorld\<lparr>files := [(''/repo/refs/dev.json'', refContent devRef)]\<rparr>)
        (layerPath (exEnv 5) (LayerID baseRef)) =
      (None, \<lparr>files = [(''/repo/refs/dev.json'', refContent devRef)],
              dirs = {''/repo/layers/layer_2''}\<rparr>)"
    by (auto simp: osRemoveAll_def exEnv_simps layerPath_def baseRef_def go_paths exWorld_def
        rmTree_def under_def dirPrefix_def)
  have r3: "osRemoveAll (exEnv 5)
        \<lparr>files = [(''/repo/refs/dev.json'', refContent devRef)],
         dirs = {''/repo/layers/layer_2''}\<rparr>
        (workPath (exEnv 5) (LayerID baseRef)) =
      (None, \<lparr>files = [(''/repo/refs/dev.json'', refContent devRef)],
              dirs = {''/repo/layers/layer_2''}\<rparr>)"
    by (auto simp: osRemoveAll_def exEnv_simps workPath_def baseRef_def go_paths
        rmTree_def under_def dirPrefix_def)
  have b: "DeleteRef (exEnv 5) exWorld ''./base'' False =
     (None, \<lparr>files = [(''/repo/refs/dev.json'', refContent devRef)],
             dirs = {''/repo/layers/layer_2''}\<rparr>)"
    by (simp add: DeleteRef_def exWorld_refs exWorld_children r1 r2 r3)
  from v a b show ?thesis by (simp add: exWorld_refs devRef_def)
qed

section \<open>The mounted check\<close>

text \<open>
  C10: \<open>isMounted\<close> is the test whether the absolute path of the mount point occurs
  somewhere in the text of the mount table. With \<open>/mnt/ab\<close> the only entry of the
  table, \<open>/mnt/a\<close> is no entry of it, and \<open>Mount\<close> on \<open>/mnt/a\<close> fails with
  \<open>AlreadyMounted\<close>.
\<close>

theorem isMounted_substring:
  "isMounted e mountPoint =
     (case procMounts e of
        None \<Rightarrow> False
      | Some data \<Rightarrow> sublist (case pabs e mountPoint of None \<Rightarrow> [] | Some a \<Rightarrow> a) data) \<and>
   procMounts prefixEnv = Some prefixTable \<and> pabs prefixEnv ''/mnt/a'' = Some ''/mnt/a'' \<and>
   mountTargets prefixTable = [''/mnt/ab''] \<and>
   Mount prefixEnv exWorld ''dev'' ''/mnt/a'' =
     Some (Some AlreadyMounted, exWorld\<lparr>dirs := insert ''/mnt/a'' (dirs exWorld)\<rparr>, [])"
proof -
  have a: "isMounted prefixEnv ''/mnt/a''"
    by (simp add: isMounted_def prefixEnv_def prefixTable_def exEnv_def go_paths sublist_code
        prefix_code)
  have b: "mountTargets prefixTable = [''/mnt/ab'']"
    by (simp add: mountTargets_def prefixTable_def)
  have c: "mkdirAll prefixEnv p = None" for p by (simp add: prefixEnv_def exEnv_def)
  have g: "getRef prefixEnv exWorld ''dev'' = Some devRef"
    using exWorld_refs(1) [of 5] by (simp add: getRef_def refFile_def refPath_def prefixEnv_def)
  have r: "resolve prefixEnv ''/mnt/a'' = ''/mnt/a''" "pabs prefixEnv ''/mnt/a'' = Some ''/mnt/a''"
    "procMounts prefixEnv = Some prefixTable"
    by (simp_all add: prefixEnv_def exEnv_def go_paths)
  show ?thesis
    by (simp add: a b c g r Mount_def Let_def) (simp add: isMounted_def)
qed

end
